theory Spec2Isabelle
  imports Main
begin

section \<open>String and array primitives used by the task actions\<close>

text \<open>
  The source is TypeScript. A JavaScript string is modelled as a \<^typ>\<open>string\<close>, one
  \<^typ>\<open>char\<close> per code unit (code units below 256), and an array of strings as a list.
  Only the library calls that the source makes are modelled, each with the behaviour the
  language gives it on the arguments the source passes.
\<close>

definition newline :: char where
  "newline = CHR 0x0A"

text \<open>\<^verbatim>\<open>s.split(sep)\<close> for a one-character separator: never the empty array.\<close>

fun split_on :: "char \<Rightarrow> string \<Rightarrow> string list" where
  "split_on sep [] = [Nil]"
| "split_on sep (c # cs) =
     (if c = sep then [] # split_on sep cs
      else case split_on sep cs of
             l # ls \<Rightarrow> (c # l) # ls
           | [] \<Rightarrow> [c # Nil])"

text \<open>\<^verbatim>\<open>rows.join(sep)\<close>: the empty array gives the empty string.\<close>

fun join_with :: "char \<Rightarrow> string list \<Rightarrow> string" where
  "join_with sep [] = []"
| "join_with sep [l] = l"
| "join_with sep (l # ls) = l @ sep # join_with sep ls"

text \<open>\<^verbatim>\<open>rows.splice(start, count)\<close> with a start inside \<open>0..length\<close>: the array
  without the \<open>count\<close> elements from \<open>start\<close> on.\<close>

definition splice_js :: "nat \<Rightarrow> nat \<Rightarrow> 'a list \<Rightarrow> 'a list" where
  "splice_js start count xs = take start xs @ drop (start + count) xs"

text \<open>\<^verbatim>\<open>rows[i] = v\<close>: an index inside the array overwrites, an index at or past the
  end extends the array; the holes this leaves are joined as empty strings.\<close>

definition assign_index :: "string list \<Rightarrow> nat \<Rightarrow> string \<Rightarrow> string list" where
  "assign_index xs i v =
     (if i < length xs then xs[i := v]
      else xs @ replicate (i - length xs) [] @ [v])"

section \<open>The document store\<close>

text \<open>
  The vault is Obsidian's, an external collaborator. It is modelled as the spec's section 6
  describes the document store: documents by handle (here the path), folders, and calls
  that may each fail with a store-level error. \<open>faulty\<close> says which calls fail, \<open>calls\<close>
  records every call made, in order.
\<close>

datatype store_call =
    Read string
  | Modify string string
  | Exists string
  | Create string string
  | CreateFolder string

datatype error = StoreFailure store_call

record vault =
  files :: "string \<rightharpoonup> string"
  folders :: "string set"
  faulty :: "store_call \<Rightarrow> bool"
  calls :: "store_call list"

definition invoked :: "vault \<Rightarrow> store_call \<Rightarrow> vault" where
  "invoked v c = v\<lparr>calls := calls v @ [c]\<rparr>"

definition vault_read :: "vault \<Rightarrow> string \<Rightarrow> (error + string) \<times> vault" where
  "vault_read v h =
     (if faulty v (Read h) then (Inl (StoreFailure (Read h)), invoked v (Read h))
      else case files v h of
             None \<Rightarrow> (Inl (StoreFailure (Read h)), invoked v (Read h))
           | Some text \<Rightarrow> (Inr text, invoked v (Read h)))"

definition vault_modify :: "vault \<Rightarrow> string \<Rightarrow> string \<Rightarrow> (error + unit) \<times> vault" where
  "vault_modify v h text =
     (if faulty v (Modify h text)
      then (Inl (StoreFailure (Modify h text)), invoked v (Modify h text))
      else (Inr (), (invoked v (Modify h text))\<lparr>files := (files v)(h \<mapsto> text)\<rparr>))"

section \<open>The row synchronizer\<close>

text \<open>
  \<^verbatim>\<open>updateRow(vault, fileHandle, row, newText)\<close>. An awaited call that rejects ends the
  function with that error; the absent row (\<^verbatim>\<open>row == null\<close>) is \<open>None\<close>.
\<close>

definition updateRow :: "vault \<Rightarrow> string \<Rightarrow> nat option \<Rightarrow> string \<Rightarrow> (error + unit) \<times> vault" where
  "updateRow v fileHandle row newText =
     (case vault_read v fileHandle of
        (Inl e, v1) \<Rightarrow> (Inl e, v1)
      | (Inr file, v1) \<Rightarrow>
          (let rows = split_on newline file;
               row' = (case row of None \<Rightarrow> length rows | Some r \<Rightarrow> r)
           in if length rows < row' then (Inr (), v1)
              else
                (let rows' = (if newText = [] then splice_js row' 1 rows
                              else assign_index rows row' newText);
                     newFile = join_with newline rows'
                 in vault_modify v1 fileHandle newFile)))"

text \<open>The lines of a document, split as \<open>updateRow\<close> splits what it reads.\<close>

definition lines_of :: "string \<Rightarrow> string list" where
  "lines_of text = split_on newline text"

text \<open>
  The older revision of the same function, in \<^verbatim>\<open>src/ui/tasks/actions.ts\<close>: the row is
  always given and the line is always assigned, also when the new text is empty.
\<close>

definition updateRow_actions_ts :: "vault \<Rightarrow> string \<Rightarrow> nat \<Rightarrow> string \<Rightarrow> (error + unit) \<times> vault" where
  "updateRow_actions_ts v fileHandle row newText =
     (case vault_read v fileHandle of
        (Inl e, v1) \<Rightarrow> (Inl e, v1)
      | (Inr file, v1) \<Rightarrow>
          (let rows = split_on newline file
           in if length rows < row then (Inr (), v1)
              else
                (let rows' = assign_index rows row newText;
                     newFile = join_with newline rows'
                 in vault_modify v1 fileHandle newFile)))"

section \<open>Tasks, metadata and the dispatcher\<close>

text \<open>
  The class \<^verbatim>\<open>Task\<close> is imported from \<^verbatim>\<open>./task\<close>, which is not among the sources.
  The fields the dispatcher assigns are the fields of the record; the methods it calls
  (\<^verbatim>\<open>serialise\<close> with its optional column override, \<^verbatim>\<open>archive\<close>, \<^verbatim>\<open>delete\<close>) are
  parameters, so every theorem holds whatever they compute.
\<close>

record task =
  column :: string
  done_flag :: bool
  content :: string

record 'a task_methods =
  serialise :: "'a task_scheme \<Rightarrow> string option \<Rightarrow> string"
  archive :: "'a task_scheme \<Rightarrow> 'a task_scheme"
  delete :: "'a task_scheme \<Rightarrow> 'a task_scheme"

record metadata =
  fileHandle :: string
  rowIndex :: nat

text \<open>
  What \<^verbatim>\<open>createTaskActions\<close> closes over: the two maps, the vault, the configured default
  task path of the settings store, the parent folder of the workspace's active file.
  \<open>unhandled\<close> collects the rejections of promises that nobody awaits.
\<close>

record 'a world =
  tasksByTaskId :: "string \<rightharpoonup> 'a task_scheme"
  metadataByTaskId :: "string \<rightharpoonup> metadata"
  vault :: vault
  defaultTaskPath :: "string option"
  activeFileParentPath :: "string option"
  unhandled :: "error list"

text \<open>
  \<^verbatim>\<open>updater(task)\<close> mutates the object that the map holds, so the map shows the mutation
  from then on, whatever \<^verbatim>\<open>updateRow\<close> does afterwards.
\<close>

definition updateRowWithTask ::
  "'a task_methods \<Rightarrow> 'a world \<Rightarrow> string \<Rightarrow> ('a task_scheme \<Rightarrow> 'a task_scheme)
     \<Rightarrow> (error + unit) \<times> 'a world" where
  "updateRowWithTask M w tid updater =
     (case metadataByTaskId w tid of
        None \<Rightarrow> (Inr (), w)
      | Some metadata \<Rightarrow>
          (case tasksByTaskId w tid of
             None \<Rightarrow> (Inr (), w)
           | Some task \<Rightarrow>
               (let task' = updater task;
                    w1 = w\<lparr>tasksByTaskId := (tasksByTaskId w)(tid \<mapsto> task')\<rparr>;
                    newTaskString = serialise M task' None;
                    res = updateRow (vault w1) (fileHandle metadata)
                            (Some (rowIndex metadata)) newTaskString
                in (fst res, w1\<lparr>vault := snd res\<rparr>))))"

definition changeColumn ::
  "'a task_methods \<Rightarrow> 'a world \<Rightarrow> string \<Rightarrow> string \<Rightarrow> (error + unit) \<times> 'a world" where
  "changeColumn M w tid col = updateRowWithTask M w tid (\<lambda>task. task\<lparr>column := col\<rparr>)"

definition markDone ::
  "'a task_methods \<Rightarrow> 'a world \<Rightarrow> string \<Rightarrow> (error + unit) \<times> 'a world" where
  "markDone M w tid = updateRowWithTask M w tid (\<lambda>task. task\<lparr>done_flag := True\<rparr>)"

definition updateContent ::
  "'a task_methods \<Rightarrow> 'a world \<Rightarrow> string \<Rightarrow> string \<Rightarrow> (error + unit) \<times> 'a world" where
  "updateContent M w tid text = updateRowWithTask M w tid (\<lambda>task. task\<lparr>content := text\<rparr>)"

text \<open>The loop awaits each call, so the first rejection ends it.\<close>

fun archiveTasks ::
  "'a task_methods \<Rightarrow> 'a world \<Rightarrow> string list \<Rightarrow> (error + unit) \<times> 'a world" where
  "archiveTasks M w [] = (Inr (), w)"
| "archiveTasks M w (tid # tids) =
     (case updateRowWithTask M w tid (archive M) of
        (Inl e, w') \<Rightarrow> (Inl e, w')
      | (Inr u, w') \<Rightarrow> archiveTasks M w' tids)"

definition deleteTask ::
  "'a task_methods \<Rightarrow> 'a world \<Rightarrow> string \<Rightarrow> (error + unit) \<times> 'a world" where
  "deleteTask M w tid = updateRowWithTask M w tid (delete M)"

text \<open>
  \<^verbatim>\<open>changeColumn\<close> of the older revision: the task is not assigned to, the column is
  passed to \<^verbatim>\<open>serialise\<close> as an override.
\<close>

definition changeColumn_actions_ts ::
  "'a task_methods \<Rightarrow> 'a world \<Rightarrow> string \<Rightarrow> string \<Rightarrow> (error + unit) \<times> 'a world" where
  "changeColumn_actions_ts M w tid newColumn =
     (case metadataByTaskId w tid of
        None \<Rightarrow> (Inr (), w)
      | Some metadata \<Rightarrow>
          (case tasksByTaskId w tid of
             None \<Rightarrow> (Inr (), w)
           | Some task \<Rightarrow>
               (let newTaskString = serialise M task (Some newColumn);
                    res = updateRow_actions_ts (vault w) (fileHandle metadata)
                            (rowIndex metadata) newTaskString
                in (fst res, w\<lparr>vault := snd res\<rparr>))))"

section \<open>Creating a task: the configured default path\<close>

text \<open>The string calls of \<^verbatim>\<open>addNew\<close>.\<close>

definition is_space :: "char \<Rightarrow> bool" where
  "is_space c = (of_char c \<in> {9, 10, 11, 12, 13, 32, 160 :: nat})"

definition trim :: "string \<Rightarrow> string" where
  "trim s = rev (dropWhile is_space (rev (dropWhile is_space s)))"

definition slash :: char where
  "slash = CHR 0x2F"

definition backslash :: char where
  "backslash = CHR 0x5C"

text \<open>The test of the regular expression \<^verbatim>\<open>^[/\\]\<close>.\<close>

definition startsWithSeparator :: "string \<Rightarrow> bool" where
  "startsWithSeparator s = (case s of [] \<Rightarrow> False | c # cs \<Rightarrow> c = slash \<or> c = backslash)"

text \<open>\<^verbatim>\<open>replace(/\/+/g, "/")\<close>: every run of slashes becomes one slash.\<close>

fun collapse_slashes :: "string \<Rightarrow> string" where
  "collapse_slashes (a # b # cs) =
     (if a = slash \<and> b = slash then collapse_slashes (b # cs)
      else a # collapse_slashes (b # cs))"
| "collapse_slashes cs = cs"

definition endsWith :: "string \<Rightarrow> string \<Rightarrow> bool" where
  "endsWith s suffix =
     (length suffix \<le> length s \<and> drop (length s - length suffix) s = suffix)"

text \<open>\<^verbatim>\<open>s.lastIndexOf(c)\<close>: \<open>-1\<close> when \<open>c\<close> does not occur.\<close>

definition lastIndexOf :: "string \<Rightarrow> char \<Rightarrow> int" where
  "lastIndexOf s c =
     (if c \<in> set s then int (length s) - 1 - int (length (takeWhile (\<lambda>x. x \<noteq> c) (rev s)))
      else - 1)"

text \<open>\<^verbatim>\<open>s.substring(a, b)\<close>: both ends are clamped to \<open>0..length\<close> and swapped when
  out of order.\<close>

definition substring :: "string \<Rightarrow> int \<Rightarrow> int \<Rightarrow> string" where
  "substring s a b =
     (let a' = nat (min (max a 0) (int (length s)));
          b' = nat (min (max b 0) (int (length s)))
      in take (max a' b' - min a' b') (drop (min a' b') s))"

text \<open>The remaining calls of the document store; the lookup by path does not fail.\<close>

definition vault_exists :: "vault \<Rightarrow> string \<Rightarrow> (error + bool) \<times> vault" where
  "vault_exists v path =
     (if faulty v (Exists path) then (Inl (StoreFailure (Exists path)), invoked v (Exists path))
      else (Inr (files v path \<noteq> None \<or> path \<in> folders v), invoked v (Exists path)))"

definition vault_createFolder :: "vault \<Rightarrow> string \<Rightarrow> (error + unit) \<times> vault" where
  "vault_createFolder v path =
     (if faulty v (CreateFolder path)
      then (Inl (StoreFailure (CreateFolder path)), invoked v (CreateFolder path))
      else (Inr (), (invoked v (CreateFolder path))\<lparr>folders := insert path (folders v)\<rparr>))"

definition vault_create :: "vault \<Rightarrow> string \<Rightarrow> string \<Rightarrow> (error + unit) \<times> vault" where
  "vault_create v path text =
     (if faulty v (Create path text)
      then (Inl (StoreFailure (Create path text)), invoked v (Create path text))
      else (Inr (), (invoked v (Create path text))\<lparr>files := (files v)(path \<mapsto> text)\<rparr>))"

datatype abstract_file = TFile string | TFolder string

definition getAbstractFileByPath :: "vault \<Rightarrow> string \<Rightarrow> abstract_file option" where
  "getAbstractFileByPath v path =
     (case files v path of
        Some text \<Rightarrow> Some (TFile path)
      | None \<Rightarrow> if path \<in> folders v then Some (TFolder path) else None)"

text \<open>Lines 105 to 117: the full path before the extension is looked at.\<close>

definition resolvedPath :: "string option \<Rightarrow> string \<Rightarrow> string" where
  "resolvedPath parent path =
     (let currentFilePath = (case parent of None \<Rightarrow> [] | Some p \<Rightarrow> p);
          isAbsolutePath = startsWithSeparator path
      in if isAbsolutePath then path
         else collapse_slashes (currentFilePath @ [slash] @ path))"

text \<open>Lines 119 to 126, under the comment \<^verbatim>\<open>Add .md extension if needed\<close>.\<close>

definition withExtension :: "string \<Rightarrow> string" where
  "withExtension fullPath =
     (if \<not> endsWith fullPath [slash] \<and> \<not> endsWith fullPath [backslash]
         \<and> \<not> endsWith fullPath ''.md''
      then fullPath @ ''.md'' else fullPath)"

text \<open>Lines 128 to 132.\<close>

definition folderPathOf :: "string \<Rightarrow> string" where
  "folderPathOf fullPath = substring fullPath 0 (lastIndexOf fullPath slash)"

text \<open>Lines 134 to 140; the empty folder path is falsy and skips the block.\<close>

definition ensureFolder :: "vault \<Rightarrow> string \<Rightarrow> (error + unit) \<times> vault" where
  "ensureFolder v folderPath =
     (if folderPath = [] then (Inr (), v)
      else case vault_exists v folderPath of
             (Inl e, v1) \<Rightarrow> (Inl e, v1)
           | (Inr folderExists, v1) \<Rightarrow>
               if \<not> folderExists then vault_createFolder v1 folderPath else (Inr (), v1))"

text \<open>Lines 142 to 146.\<close>

definition ensureFile :: "vault \<Rightarrow> string \<Rightarrow> (error + unit) \<times> vault" where
  "ensureFile v fullPath =
     (case vault_exists v fullPath of
        (Inl e, v1) \<Rightarrow> (Inl e, v1)
      | (Inr exists, v1) \<Rightarrow>
          if \<not> exists then vault_create v1 fullPath [] else (Inr (), v1))"

text \<open>The line \<^verbatim>\<open>`- [ ]  #${column}`\<close>.\<close>

definition newTaskLine :: "string \<Rightarrow> string" where
  "newTaskLine col = ''- [ ]  #'' @ col"

text \<open>
  A call of an asynchronous function whose promise is dropped: the caller goes on
  whatever the call does, and a rejection reaches nobody. The model runs the call to
  its end at that place, as happens when nothing else touches the store meanwhile, and
  files a rejection under \<open>unhandled\<close>.
\<close>

definition not_awaited :: "'a world \<Rightarrow> (error + unit) \<times> vault \<Rightarrow> 'a world" where
  "not_awaited w res =
     w\<lparr>vault := snd res,
       unhandled := unhandled w @ (case fst res of Inl e \<Rightarrow> [e] | Inr u \<Rightarrow> [])\<rparr>"

text \<open>
  How \<^verbatim>\<open>addNew\<close> ends when no error is thrown to its caller. The chooser is menus of
  the presentation layer; of it the model keeps that it was shown, and the click on a
  document (\<open>chooseFile\<close>).
\<close>

datatype addNew_end = AppendStarted string | NoTarget | ChooserShown

definition showChooser :: "'a world \<Rightarrow> bool \<Rightarrow> (error + addNew_end) \<times> 'a world" where
  "showChooser w hasTarget = (Inr (if \<not> hasTarget then NoTarget else ChooserShown), w)"

definition chooseFile :: "'a world \<Rightarrow> string \<Rightarrow> string \<Rightarrow> 'a world" where
  "chooseFile w folderItem col =
     not_awaited w (updateRow (vault w) folderItem None (newTaskLine col))"

definition addNew :: "'a world \<Rightarrow> string \<Rightarrow> bool \<Rightarrow> (error + addNew_end) \<times> 'a world" where
  "addNew w col hasTarget =
     (case defaultTaskPath w of
        None \<Rightarrow> showChooser w hasTarget
      | Some path \<Rightarrow>
          if trim path = [] then showChooser w hasTarget
          else
            (let fullPath = withExtension (resolvedPath (activeFileParentPath w) path);
                 folderPath = folderPathOf fullPath
             in case ensureFolder (vault w) folderPath of
                  (Inl e, v1) \<Rightarrow> (Inl e, w\<lparr>vault := v1\<rparr>)
                | (Inr u, v1) \<Rightarrow>
                    (case ensureFile v1 fullPath of
                       (Inl e, v2) \<Rightarrow> (Inl e, w\<lparr>vault := v2\<rparr>)
                     | (Inr u', v2) \<Rightarrow>
                         (case getAbstractFileByPath v2 fullPath of
                            Some (TFile file) \<Rightarrow>
                              (Inr (AppendStarted file),
                               not_awaited (w\<lparr>vault := v2\<rparr>)
                                 (updateRow v2 file None (newTaskLine col)))
                          | Some (TFolder d) \<Rightarrow> showChooser (w\<lparr>vault := v2\<rparr>) hasTarget
                          | None \<Rightarrow> showChooser (w\<lparr>vault := v2\<rparr>) hasTarget))))"

section \<open>Concrete stores, tasks and boards for the examples\<close>

definition failing :: "store_call list \<Rightarrow> store_call \<Rightarrow> bool" where
  "failing cs c = (c \<in> set cs)"

definition vault_of :: "(string \<times> string) list \<Rightarrow> store_call list \<Rightarrow> vault" where
  "vault_of docs bad = \<lparr>files = map_of docs, folders = {}, faulty = failing bad, calls = []\<rparr>"

text \<open>
  Modelled from the spec: the class \<^verbatim>\<open>Task\<close> of \<^verbatim>\<open>./task\<close> is missing, and the examples
  need one. The line is the spec's section 6 grammar (marker, content, column tag, as in
  \<^verbatim>\<open>- [ ] buy milk #todo\<close>), a deleted task serialises to the empty string (section 4.2),
  archiving changes the column. No theorem about the dispatcher assumes any of this: there
  the methods are arbitrary.
\<close>

record example_task = task +
  deleted :: bool

definition example_serialise :: "example_task \<Rightarrow> string option \<Rightarrow> string" where
  "example_serialise t override =
     (if deleted t then []
      else (if done_flag t then ''- [x] '' else ''- [ ] '') @ content t @ '' #''
             @ (case override of None \<Rightarrow> column t | Some c \<Rightarrow> c))"

definition example_methods :: "unit example_task_ext task_methods" where
  "example_methods =
     \<lparr>serialise = example_serialise,
      archive = (\<lambda>t. t\<lparr>column := ''archived''\<rparr>),
      delete = (\<lambda>t. t\<lparr>deleted := True\<rparr>)\<rparr>"

definition open_task :: "string \<Rightarrow> string \<Rightarrow> example_task" where
  "open_task text col = \<lparr>column = col, done_flag = False, content = text, deleted = False\<rparr>"

definition board_of ::
  "(string \<times> example_task) list \<Rightarrow> (string \<times> metadata) list \<Rightarrow> vault \<Rightarrow> string option
     \<Rightarrow> unit example_task_ext world" where
  "board_of ts ms v path =
     \<lparr>tasksByTaskId = map_of ts, metadataByTaskId = map_of ms, vault = v,
      defaultTaskPath = path, activeFileParentPath = None, unhandled = []\<rparr>"

text \<open>The stores and boards of the examples.\<close>

definition one_line :: vault where
  "one_line = vault_of [(''t.md'', ''a'')] []"

definition two_lines :: vault where
  "two_lines = vault_of [(''t.md'', ''a\<newline>b'')] []"

definition orphan_board :: "unit example_task_ext world" where
  "orphan_board =
     board_of [(''t1'', open_task ''buy milk'' ''todo'')] [] (vault_of [(''b.md'', ''x'')] []) None"


definition inbox_board :: "unit example_task_ext world" where
  "inbox_board =
     (board_of [] [] (vault_of [] []) (Some ''tasks/inbox''))
       \<lparr>activeFileParentPath := Some ''projects''\<rparr>"

section \<open>Observing the store\<close>

text \<open>
  The document a handle holds, as its sequence of lines; the store after one read; the
  store after one read and one successful write.
\<close>

definition document :: "vault \<Rightarrow> string \<Rightarrow> string list option" where
  "document v h = map_option lines_of (files v h)"

definition after_read :: "vault \<Rightarrow> string \<Rightarrow> vault" where
  "after_read v h = v\<lparr>calls := calls v @ [Read h]\<rparr>"

definition after_write :: "vault \<Rightarrow> string \<Rightarrow> string \<Rightarrow> vault" where
  "after_write v h text =
     v\<lparr>files := (files v)(h \<mapsto> text), calls := calls v @ [Read h, Modify h text]\<rparr>"

text \<open>The negation of the dispatcher's guard \<^verbatim>\<open>!metadata || !task\<close>.\<close>

definition known :: "'a world \<Rightarrow> string \<Rightarrow> bool" where
  "known w tid = (metadataByTaskId w tid \<noteq> None \<and> tasksByTaskId w tid \<noteq> None)"

text \<open>
  In the words of the spec, not of the code: a path carries an extension when a dot
  occurs in its last segment.
\<close>

definition carriesExtension :: "string \<Rightarrow> bool" where
  "carriesExtension p =
     (CHR ''.'' \<in> set (takeWhile (\<lambda>c. c \<noteq> slash \<and> c \<noteq> backslash) (rev p)))"

section \<open>Splitting and joining\<close>

lemma split_on_not_Nil: "split_on sep s \<noteq> []"
  by (induction s) (auto split: list.splits)

lemma join_with_Cons: "ls \<noteq> [] \<Longrightarrow> join_with sep (l # ls) = l @ sep # join_with sep ls"
  by (cases ls) auto

lemma join_split: "join_with sep (split_on sep s) = s"
proof (induction s)
  case Nil
  show ?case by simp
next
  case (Cons c cs)
  obtain l ls where eq: "split_on sep cs = l # ls"
    using split_on_not_Nil [of sep cs] by (cases "split_on sep cs") auto
  show ?case
  proof (cases "c = sep")
    case True
    with Cons show ?thesis by (simp add: eq)
  next
    case False
    with Cons eq show ?thesis by (cases ls) auto
  qed
qed

lemma split_on_free: "l \<in> set (split_on sep s) \<Longrightarrow> sep \<notin> set l"
proof (induction s arbitrary: l)
  case Nil
  then show ?case by simp
next
  case (Cons c cs)
  obtain k ks where eq: "split_on sep cs = k # ks"
    using split_on_not_Nil [of sep cs] by (cases "split_on sep cs") auto
  have k: "sep \<notin> set k" and ks: "\<And>x. x \<in> set ks \<Longrightarrow> sep \<notin> set x"
    using Cons.IH eq by auto
  show ?case
  proof (cases "c = sep")
    case True
    with Cons.prems eq k ks show ?thesis by auto
  next
    case False
    with Cons.prems eq k ks show ?thesis by auto
  qed
qed

lemma split_on_line: "sep \<notin> set l \<Longrightarrow> split_on sep l = [l]"
  by (induction l) auto

lemma split_on_append:
  "sep \<notin> set l \<Longrightarrow> split_on sep (l @ sep # s) = l # split_on sep s"
  by (induction l) auto

lemma split_join:
  "ls \<noteq> [] \<Longrightarrow> \<forall>l \<in> set ls. sep \<notin> set l \<Longrightarrow> split_on sep (join_with sep ls) = ls"
proof (induction ls)
  case Nil
  then show ?case by simp
next
  case (Cons l ls)
  show ?case
  proof (cases ls)
    case Nil
    with Cons.prems show ?thesis by (simp add: split_on_line)
  next
    case (Cons k ks)
    with Cons.prems Cons.IH show ?thesis
      by (simp add: split_on_append)
  qed
qed

lemma lines_of_not_Nil: "lines_of text \<noteq> []"
  by (simp add: lines_of_def split_on_not_Nil)

lemma join_lines_of: "join_with newline (lines_of text) = text"
  by (simp add: lines_of_def join_split)

lemma lines_of_join:
  "ls \<noteq> [] \<Longrightarrow> \<forall>l \<in> set ls. newline \<notin> set l \<Longrightarrow> lines_of (join_with newline ls) = ls"
  by (simp add: lines_of_def split_join)

lemma lines_of_free: "l \<in> set (lines_of text) \<Longrightarrow> newline \<notin> set l"
  by (simp add: lines_of_def split_on_free)

lemma documentD:
  "document v h = Some D \<Longrightarrow> \<exists>text. files v h = Some text \<and> lines_of text = D"
  by (auto simp: document_def)

lemma document_lines:
  assumes "document v h = Some D"
  shows "D \<noteq> []" and "\<forall>l \<in> set D. newline \<notin> set l"
  using assms lines_of_not_Nil lines_of_free by (auto simp: document_def)

lemma document_after_write:
  "ls \<noteq> [] \<Longrightarrow> \<forall>l \<in> set ls. newline \<notin> set l \<Longrightarrow>
   document (after_write v h (join_with newline ls)) h = Some ls"
  by (simp add: document_def after_write_def lines_of_join)

lemma updateRow_document:
  assumes "document v h = Some D" and "\<not> faulty v (Read h)"
  shows "updateRow v h row newText =
     (let r = (case row of None \<Rightarrow> length D | Some r \<Rightarrow> r)
      in if length D < r then (Inr (), after_read v h)
         else vault_modify (after_read v h) h
                (join_with newline (if newText = [] then splice_js r 1 D
                                    else assign_index D r newText)))"
proof -
  obtain body where "files v h = Some body" and "lines_of body = D"
    using documentD [OF assms(1)] by blast
  then show ?thesis
    using assms(2)
    by (simp add: updateRow_def vault_read_def lines_of_def Let_def invoked_def after_read_def)
qed

lemma updateRow_actions_ts_document:
  assumes "document v h = Some D" and "\<not> faulty v (Read h)"
  shows "updateRow_actions_ts v h r newText =
     (if length D < r then (Inr (), after_read v h)
      else vault_modify (after_read v h) h (join_with newline (assign_index D r newText)))"
proof -
  obtain body where "files v h = Some body" and "lines_of body = D"
    using documentD [OF assms(1)] by blast
  then show ?thesis
    using assms(2)
    by (simp add: updateRow_actions_ts_def vault_read_def lines_of_def Let_def invoked_def
        after_read_def)
qed

lemma vault_modify_after_read:
  "\<not> faulty v (Modify h text) \<Longrightarrow>
   vault_modify (after_read v h) h text = (Inr (), after_write v h text)"
  by (simp add: vault_modify_def invoked_def after_read_def after_write_def)

lemma newline_free_take_drop:
  "\<forall>l \<in> set D. newline \<notin> set l \<Longrightarrow> \<forall>l \<in> set (take r D @ drop k D). newline \<notin> set l"
  by (auto dest: in_set_takeD in_set_dropD)

lemma updateRow_actions_ts_eq:
  "newText \<noteq> [] \<Longrightarrow> updateRow_actions_ts v h r newText = updateRow v h (Some r) newText"
  by (simp add: updateRow_actions_ts_def updateRow_def Let_def split: prod.splits sum.splits)

lemma faulty_after [simp]:
  "faulty (after_read v h) = faulty v" "faulty (after_write v h t) = faulty v"
  by (simp_all add: after_read_def after_write_def)

lemma document_after_read [simp]: "document (after_read v h) k = document v k"
  by (simp add: document_def after_read_def)

lemma assign_index_lines:
  assumes "\<forall>l \<in> set D. newline \<notin> set l" and "newline \<notin> set t" and "r \<le> length D"
  shows "\<forall>l \<in> set (assign_index D r t). newline \<notin> set l"
  using assms by (auto simp: assign_index_def dest: subsetD [OF set_update_subset_insert])

lemma assign_index_twice:
  "r \<le> length D \<Longrightarrow> assign_index (assign_index D r t) r t = assign_index D r t"
  by (auto simp: assign_index_def)

lemma assign_index_bound:
  "r \<le> length D \<Longrightarrow> r < length (assign_index D r t)"
  by (auto simp: assign_index_def)

lemma updateRow_write:
  assumes "document v h = Some D" and "\<not> faulty v (Read h)" and "\<forall>c. \<not> faulty v (Modify h c)"
    and "r \<le> length D" and "newText \<noteq> []" and "newline \<notin> set newText"
  shows "updateRow v h (Some r) newText
           = (Inr (), after_write v h (join_with newline (assign_index D r newText)))"
    and "document (after_write v h (join_with newline (assign_index D r newText))) h
           = Some (assign_index D r newText)"
proof -
  show "updateRow v h (Some r) newText
           = (Inr (), after_write v h (join_with newline (assign_index D r newText)))"
    using assms by (simp add: updateRow_document vault_modify_after_read)
  have "assign_index D r newText \<noteq> []"
    using assign_index_bound [OF assms(4), of newText] by auto
  moreover have "\<forall>l \<in> set (assign_index D r newText). newline \<notin> set l"
    using document_lines(2) [OF assms(1)] assms(6,4) by (rule assign_index_lines)
  ultimately show "document (after_write v h (join_with newline (assign_index D r newText))) h
           = Some (assign_index D r newText)"
    by (rule document_after_write)
qed

text \<open>The example stores hold what their names say and never fail.\<close>

lemma one_line_document: "document one_line ''t.md'' = Some [''a'']"
  by (simp add: one_line_def document_def vault_of_def lines_of_def newline_def)

lemma two_lines_document: "document two_lines ''t.md'' = Some [''a'', ''b'']"
  by (simp add: two_lines_def document_def vault_of_def lines_of_def newline_def)

lemma one_line_sound: "\<not> faulty one_line c"
  by (simp add: one_line_def vault_of_def failing_def)

lemma two_lines_sound: "\<not> faulty two_lines c"
  by (simp add: two_lines_def vault_of_def failing_def)

section \<open>The row synchronizer: what one call does\<close>

text \<open>
  Claim C1, as amended. The guard of \<open>updateRow\<close> is \<^verbatim>\<open>rows.length < row\<close>: for a row
  index strictly greater than the number of lines of the document, the call reads the
  document once and returns; the files are as before and \<^verbatim>\<open>vault.modify\<close> is not
  called. Both revisions of the function do so, for any new text.
\<close>

theorem updateRow_beyond_end:
  assumes "document v h = Some D" and "\<not> faulty v (Read h)" and "length D < r"
  shows "updateRow v h (Some r) newText = (Inr (), after_read v h)
       \<and> updateRow_actions_ts v h r newText = (Inr (), after_read v h)
       \<and> files (after_read v h) = files v
       \<and> calls (after_read v h) = calls v @ [Read h]"
  using assms
  by (simp add: updateRow_document updateRow_actions_ts_document after_read_def)

text \<open>The theorem at a one-line document and row 2.\<close>

theorem updateRow_beyond_end_witness:
  "document one_line ''t.md'' = Some [''a'']
   \<and> \<not> faulty one_line (Read ''t.md'')
   \<and> length [''a''] < (2::nat)
   \<and> updateRow one_line ''t.md'' (Some 2) ''b'' = (Inr (), after_read one_line ''t.md'')"
proof -
  have stale: "length [''a''] < (2::nat)" by simp
  show ?thesis
    using one_line_document one_line_sound stale
      updateRow_beyond_end [OF one_line_document one_line_sound stale, of "''b''"]
    by blast
qed

text \<open>
  Claim C1 as stated includes the row index equal to the number of lines. There the guard
  lets the call through: on the one-line document \<open>a\<close> with row 1 and text \<open>b\<close> the
  store is written and the document has two lines afterwards.
\<close>

theorem updateRow_at_end_counterexample:
  "document (vault_of [(''t.md'', ''a'')] []) ''t.md'' = Some [''a'']
   \<and> (1::nat) \<ge> length [''a'']
   \<and> document (snd (updateRow (vault_of [(''t.md'', ''a'')] []) ''t.md'' (Some 1) ''b'')) ''t.md''
        = Some [''a'', ''b'']
   \<and> calls (snd (updateRow (vault_of [(''t.md'', ''a'')] []) ''t.md'' (Some 1) ''b''))
        = [Read ''t.md'', Modify ''t.md'' ''a\<newline>b'']"
  by (simp add: document_def vault_of_def failing_def lines_of_def newline_def updateRow_def
      vault_read_def vault_modify_def invoked_def assign_index_def)

text \<open>
  Claim C2, as amended. For a document \<open>D\<close>, a row index \<open>r\<close> below its number of
  lines, and a new text that is not empty and holds no line break, \<open>updateRow\<close> writes
  back the document whose lines are those of \<open>D\<close> with line \<open>r\<close> replaced by the text:
  the same number of lines, every other line as it was. The older revision does the same.
\<close>

theorem updateRow_replaces_line:
  assumes "document v h = Some D" and "\<not> faulty v (Read h)" and "\<forall>c. \<not> faulty v (Modify h c)"
    and "r < length D" and "newText \<noteq> []" and "newline \<notin> set newText"
  shows "updateRow v h (Some r) newText
           = (Inr (), after_write v h (join_with newline (D[r := newText])))
       \<and> document (after_write v h (join_with newline (D[r := newText]))) h
           = Some (D[r := newText])
       \<and> updateRow_actions_ts v h r newText = updateRow v h (Some r) newText"
proof -
  have "\<forall>l \<in> set (D[r := newText]). newline \<notin> set l"
    using document_lines(2) [OF assms(1)] assms(6) by (auto dest: subsetD [OF set_update_subset_insert])
  moreover have "D[r := newText] \<noteq> []"
    using assms(4) by auto
  ultimately have "document (after_write v h (join_with newline (D[r := newText]))) h
           = Some (D[r := newText])"
    by (rule document_after_write [rotated])
  then show ?thesis
    using assms
    by (simp add: updateRow_document updateRow_actions_ts_document assign_index_def
        vault_modify_after_read)
qed

text \<open>The theorem at a two-line document, row 1.\<close>

theorem updateRow_replaces_line_witness:
  "document two_lines ''t.md'' = Some [''a'', ''b'']
   \<and> \<not> faulty two_lines (Read ''t.md'') \<and> (\<forall>c. \<not> faulty two_lines (Modify ''t.md'' c))
   \<and> (1::nat) < length [''a'', ''b''] \<and> ''c'' \<noteq> [] \<and> newline \<notin> set ''c''
   \<and> updateRow two_lines ''t.md'' (Some 1) ''c''
       = (Inr (), after_write two_lines ''t.md'' (join_with newline [''a'', ''c'']))
   \<and> document (after_write two_lines ''t.md'' (join_with newline [''a'', ''c''])) ''t.md''
       = Some [''a'', ''c'']"
proof -
  have sound: "\<forall>c. \<not> faulty two_lines (Modify ''t.md'' c)"
    by (simp add: two_lines_sound)
  have row: "(1::nat) < length [''a'', ''b'']" by simp
  have line: "''c'' \<noteq> []" "newline \<notin> set ''c''" by (simp_all add: newline_def)
  show ?thesis
    using two_lines_document two_lines_sound sound row line
      updateRow_replaces_line [OF two_lines_document two_lines_sound sound row line]
    by simp
qed

text \<open>
  Claim C2 as stated allows any non-empty text. A text with a line break inside replaces
  one line by two: the one-line document \<open>x\<close> has two lines after the call.
\<close>

theorem updateRow_multiline_text_counterexample:
  "document (vault_of [(''t.md'', ''x'')] []) ''t.md'' = Some [''x'']
   \<and> (0::nat) < length [''x''] \<and> ''a\<newline>b'' \<noteq> []
   \<and> document (snd (updateRow (vault_of [(''t.md'', ''x'')] []) ''t.md'' (Some 0) ''a\<newline>b'')) ''t.md''
        = Some [''a'', ''b'']"
  by (simp add: document_def vault_of_def failing_def lines_of_def newline_def updateRow_def
      vault_read_def vault_modify_def invoked_def assign_index_def)

text \<open>
  Claim C3, as amended. For a document \<open>D\<close> and a row index \<open>r\<close> below its number of
  lines, \<open>updateRow\<close> with the empty text writes back the lines of \<open>D\<close> without line
  \<open>r\<close>, joined: one line fewer is joined than \<open>D\<close> has. When \<open>D\<close> has two lines or
  more, the document written is \<open>D\<close> with line \<open>r\<close> removed, the others unchanged and
  in order. When \<open>D\<close> has one line, the document written is the empty text, which is
  one empty line.
\<close>

theorem updateRow_removes_line:
  assumes "document v h = Some D" and "\<not> faulty v (Read h)" and "\<forall>c. \<not> faulty v (Modify h c)"
    and "r < length D"
  shows "updateRow v h (Some r) []
           = (Inr (), after_write v h (join_with newline (take r D @ drop (Suc r) D)))
       \<and> length (take r D @ drop (Suc r) D) + 1 = length D
       \<and> (2 \<le> length D \<longrightarrow>
            document (after_write v h (join_with newline (take r D @ drop (Suc r) D))) h
              = Some (take r D @ drop (Suc r) D))
       \<and> (length D = 1 \<longrightarrow>
            document (after_write v h (join_with newline (take r D @ drop (Suc r) D))) h
              = Some [Nil])"
proof -
  have free: "\<forall>l \<in> set (take r D @ drop (Suc r) D). newline \<notin> set l"
    using document_lines(2) [OF assms(1)] by (rule newline_free_take_drop)
  have len: "length (take r D @ drop (Suc r) D) + 1 = length D"
    using assms(4) by simp
  have "document (after_write v h (join_with newline (take r D @ drop (Suc r) D))) h
              = Some (take r D @ drop (Suc r) D)" if "2 \<le> length D"
  proof -
    from that len have "take r D @ drop (Suc r) D \<noteq> []"
      by (metis One_nat_def Suc_1 add_0 list.size(3) not_less_eq_eq order_refl)
    then show ?thesis using free by (rule document_after_write)
  qed
  moreover have "document (after_write v h (join_with newline (take r D @ drop (Suc r) D))) h
              = Some [Nil]" if "length D = 1"
  proof -
    from that assms(4) have "r = 0"
      by simp
    with that have "take r D @ drop (Suc r) D = []"
      by simp
    then have "join_with newline (take r D @ drop (Suc r) D) = []"
      by (simp only: join_with.simps)
    then show ?thesis
      by (simp add: document_def after_write_def lines_of_def)
  qed
  ultimately show ?thesis
    using assms len
    by (simp add: updateRow_document splice_js_def vault_modify_after_read)
qed

text \<open>The theorem at a two-line document, row 0.\<close>

theorem updateRow_removes_line_witness:
  "document two_lines ''t.md'' = Some [''a'', ''b'']
   \<and> \<not> faulty two_lines (Read ''t.md'') \<and> (\<forall>c. \<not> faulty two_lines (Modify ''t.md'' c))
   \<and> (0::nat) < length [''a'', ''b''] \<and> 2 \<le> length [''a'', ''b'']
   \<and> updateRow two_lines ''t.md'' (Some 0) []
       = (Inr (), after_write two_lines ''t.md'' (join_with newline [''b'']))
   \<and> document (after_write two_lines ''t.md'' (join_with newline [''b''])) ''t.md''
       = Some [''b'']"
proof -
  have sound: "\<forall>c. \<not> faulty two_lines (Modify ''t.md'' c)"
    by (simp add: two_lines_sound)
  have row: "(0::nat) < length [''a'', ''b'']" by simp
  show ?thesis
    using two_lines_document two_lines_sound sound row
      updateRow_removes_line [OF two_lines_document two_lines_sound sound row]
    by simp
qed

text \<open>
  Claim C3 as stated includes the document of one line. Removing its only line joins the
  empty array, which writes the empty text, and the empty text is a document of one
  (empty) line again: the number of lines has not decreased, and the result is the one
  that blanking the line would have given.
\<close>

theorem updateRow_only_line_counterexample:
  "document (vault_of [(''t.md'', ''x'')] []) ''t.md'' = Some [''x'']
   \<and> (0::nat) < length [''x'']
   \<and> document (snd (updateRow (vault_of [(''t.md'', ''x'')] []) ''t.md'' (Some 0) [])) ''t.md''
        = Some [Nil]
   \<and> length [Nil :: string] = length [''x'']"
  by (simp add: document_def vault_of_def failing_def lines_of_def newline_def updateRow_def
      vault_read_def vault_modify_def invoked_def splice_js_def)

text \<open>
  Claim C4, as amended. With the row index absent and a new text that is not empty and
  holds no line break, \<open>updateRow\<close> writes back \<open>D\<close> with the text as a new last line:
  one line more, the lines of \<open>D\<close> unchanged before it.
\<close>

theorem updateRow_appends_line:
  assumes "document v h = Some D" and "\<not> faulty v (Read h)" and "\<forall>c. \<not> faulty v (Modify h c)"
    and "newText \<noteq> []" and "newline \<notin> set newText"
  shows "updateRow v h None newText
           = (Inr (), after_write v h (join_with newline (D @ [newText])))
       \<and> document (after_write v h (join_with newline (D @ [newText]))) h
           = Some (D @ [newText])
       \<and> length (D @ [newText]) = length D + 1"
proof -
  have "\<forall>l \<in> set (D @ [newText]). newline \<notin> set l"
    using document_lines(2) [OF assms(1)] assms(5) by auto
  then have "document (after_write v h (join_with newline (D @ [newText]))) h
           = Some (D @ [newText])"
    by (simp add: document_after_write)
  then show ?thesis
    using assms
    by (simp add: updateRow_document assign_index_def vault_modify_after_read)
qed

text \<open>The theorem at a one-line document.\<close>

theorem updateRow_appends_line_witness:
  "document one_line ''t.md'' = Some [''a'']
   \<and> \<not> faulty one_line (Read ''t.md'') \<and> (\<forall>c. \<not> faulty one_line (Modify ''t.md'' c))
   \<and> ''b'' \<noteq> [] \<and> newline \<notin> set ''b''
   \<and> updateRow one_line ''t.md'' None ''b''
       = (Inr (), after_write one_line ''t.md'' (join_with newline [''a'', ''b'']))
   \<and> document (after_write one_line ''t.md'' (join_with newline [''a'', ''b''])) ''t.md''
       = Some [''a'', ''b'']"
proof -
  have sound: "\<forall>c. \<not> faulty one_line (Modify ''t.md'' c)"
    by (simp add: one_line_sound)
  have line: "''b'' \<noteq> []" "newline \<notin> set ''b''" by (simp_all add: newline_def)
  show ?thesis
    using one_line_document one_line_sound sound line
      updateRow_appends_line [OF one_line_document one_line_sound sound line]
    by simp
qed

text \<open>
  Claim C4 as stated allows any non-empty text. Appending a text with a line break inside
  adds two lines to the one-line document \<open>x\<close>.
\<close>

theorem updateRow_append_multiline_counterexample:
  "document (vault_of [(''t.md'', ''x'')] []) ''t.md'' = Some [''x'']
   \<and> ''a\<newline>b'' \<noteq> []
   \<and> document (snd (updateRow (vault_of [(''t.md'', ''x'')] []) ''t.md'' None ''a\<newline>b'')) ''t.md''
        = Some [''x'', ''a'', ''b'']"
  by (simp add: document_def vault_of_def failing_def lines_of_def newline_def updateRow_def
      vault_read_def vault_modify_def invoked_def assign_index_def)

text \<open>
  Claim C10. With the row index absent and the empty text, \<open>updateRow\<close> reads the
  document and calls \<^verbatim>\<open>vault.modify\<close> with the very text it read: nothing is removed,
  nothing is added, the files are as before, and the write is made all the same.
\<close>

theorem updateRow_absent_row_empty_text:
  assumes "files v h = Some file" and "\<not> faulty v (Read h)" and "\<not> faulty v (Modify h file)"
  shows "updateRow v h None [] = (Inr (), v\<lparr>calls := calls v @ [Read h, Modify h file]\<rparr>)"
proof -
  have doc: "document v h = Some (lines_of file)"
    using assms(1) by (simp add: document_def)
  have "(files v)(h \<mapsto> file) = files v"
    using assms(1) by (rule map_upd_triv)
  then have "after_write v h file = v\<lparr>calls := calls v @ [Read h, Modify h file]\<rparr>"
    by (simp add: after_write_def)
  then show ?thesis
    using assms(2,3)
    by (simp add: updateRow_document [OF doc] splice_js_def join_lines_of vault_modify_after_read)
qed

text \<open>The theorem at a two-line document.\<close>

theorem updateRow_absent_row_empty_text_witness:
  "files two_lines ''t.md'' = Some ''a\<newline>b''
   \<and> \<not> faulty two_lines (Read ''t.md'') \<and> \<not> faulty two_lines (Modify ''t.md'' ''a\<newline>b'')
   \<and> updateRow two_lines ''t.md'' None []
       = (Inr (), two_lines\<lparr>calls := calls two_lines @ [Read ''t.md'', Modify ''t.md'' ''a\<newline>b'']\<rparr>)"
proof -
  have held: "files two_lines ''t.md'' = Some ''a\<newline>b''"
    by (simp add: two_lines_def vault_of_def)
  show ?thesis
    using held two_lines_sound
      updateRow_absent_row_empty_text [OF held two_lines_sound two_lines_sound]
    by blast
qed

text \<open>
  Claim C9, as amended. For any row index and a new text that is not empty and holds no
  line break, a second \<open>updateRow\<close> with the same arguments succeeds and leaves every
  file as the first call left it. The older revision behaves as the newer one in both
  calls.
\<close>

theorem updateRow_twice:
  assumes "document v h = Some D" and "\<not> faulty v (Read h)" and "\<forall>c. \<not> faulty v (Modify h c)"
    and "newText \<noteq> []" and "newline \<notin> set newText"
  shows "fst (updateRow (snd (updateRow v h (Some r) newText)) h (Some r) newText) = Inr ()
       \<and> files (snd (updateRow (snd (updateRow v h (Some r) newText)) h (Some r) newText))
           = files (snd (updateRow v h (Some r) newText))
       \<and> updateRow_actions_ts (snd (updateRow_actions_ts v h r newText)) h r newText
           = updateRow (snd (updateRow v h (Some r) newText)) h (Some r) newText"
proof (cases "length D < r")
  case True
  have once: "updateRow v h (Some r) newText = (Inr (), after_read v h)"
    using assms(1,2) True by (simp add: updateRow_document)
  have "updateRow (after_read v h) h (Some r) newText = (Inr (), after_read (after_read v h) h)"
    using assms(1,2) True by (simp add: updateRow_document)
  then show ?thesis
    using once assms(4) by (simp add: after_read_def updateRow_actions_ts_eq)
next
  case False
  then have r: "r \<le> length D" by simp
  let ?D1 = "assign_index D r newText"
  let ?v1 = "after_write v h (join_with newline ?D1)"
  have once: "updateRow v h (Some r) newText = (Inr (), ?v1)"
    and doc1: "document ?v1 h = Some ?D1"
    using updateRow_write [OF assms(1,2,3) r assms(4,5)] by simp_all
  have r1: "r \<le> length ?D1"
    using assign_index_bound [OF r, of newText] by simp
  have "updateRow ?v1 h (Some r) newText
          = (Inr (), after_write ?v1 h (join_with newline (assign_index ?D1 r newText)))"
    using assms(2,3) by (intro updateRow_write(1) [OF doc1 _ _ r1 assms(4,5)]) simp_all
  then have twice: "updateRow ?v1 h (Some r) newText
          = (Inr (), after_write ?v1 h (join_with newline ?D1))"
    by (simp add: assign_index_twice [OF r])
  have "files (after_write ?v1 h (join_with newline ?D1)) = files ?v1"
    by (simp add: after_write_def)
  then show ?thesis
    using once twice assms(4) by (simp add: updateRow_actions_ts_eq)
qed

text \<open>The theorem at a one-line document and row 1: the first call appends, the second
  overwrites the appended line with itself.\<close>

theorem updateRow_twice_witness:
  "document one_line ''t.md'' = Some [''a'']
   \<and> \<not> faulty one_line (Read ''t.md'') \<and> (\<forall>c. \<not> faulty one_line (Modify ''t.md'' c))
   \<and> ''b'' \<noteq> [] \<and> newline \<notin> set ''b''
   \<and> fst (updateRow (snd (updateRow one_line ''t.md'' (Some 1) ''b'')) ''t.md'' (Some 1) ''b'')
       = Inr ()
   \<and> files (snd (updateRow (snd (updateRow one_line ''t.md'' (Some 1) ''b'')) ''t.md'' (Some 1) ''b''))
       = files (snd (updateRow one_line ''t.md'' (Some 1) ''b''))"
proof -
  have sound: "\<forall>c. \<not> faulty one_line (Modify ''t.md'' c)"
    by (simp add: one_line_sound)
  have line: "''b'' \<noteq> []" "newline \<notin> set ''b''" by (simp_all add: newline_def)
  show ?thesis
    using one_line_document one_line_sound sound line
      updateRow_twice [OF one_line_document one_line_sound sound line, of 1]
    by blast
qed

text \<open>
  Claim C9 as stated allows any non-empty text. With a line break inside the text the
  second call replaces only the first of the two lines that the first call wrote, and the
  document grows.
\<close>

theorem updateRow_twice_multiline_counterexample:
  "files (snd (updateRow (vault_of [(''t.md'', ''x'')] []) ''t.md'' (Some 0) ''a\<newline>b'')) ''t.md''
     = Some ''a\<newline>b''
   \<and> files (snd (updateRow (snd (updateRow (vault_of [(''t.md'', ''x'')] []) ''t.md'' (Some 0) ''a\<newline>b''))
                 ''t.md'' (Some 0) ''a\<newline>b'')) ''t.md''
     = Some ''a\<newline>b\<newline>b''"
  by (simp add: vault_of_def failing_def newline_def updateRow_def
      vault_read_def vault_modify_def invoked_def assign_index_def)

section \<open>The dispatcher: missing entries and stale rows\<close>

lemma updateRowWithTask_missing:
  "tasksByTaskId w tid = None \<or> metadataByTaskId w tid = None \<Longrightarrow>
   updateRowWithTask M w tid updater = (Inr (), w)"
  by (auto simp: updateRowWithTask_def split: option.splits)

lemma updateRowWithTask_maps:
  assumes "updateRowWithTask M w tid updater = (res, w')"
  shows "metadataByTaskId w' = metadataByTaskId w"
    and "(tasksByTaskId w' k = None) = (tasksByTaskId w k = None)"
  using assms by (auto simp: updateRowWithTask_def Let_def split: option.splits if_splits)

lemma updateRowWithTask_known:
  assumes "updateRowWithTask M w tid updater = (res, w')"
  shows "known w' = known w"
  using updateRowWithTask_maps [OF assms] by (auto simp: known_def fun_eq_iff)

lemma archiveTasks_skips_missing:
  "archiveTasks M w tids = archiveTasks M w (filter (known w) tids)"
proof (induction tids arbitrary: w)
  case Nil
  show ?case by simp
next
  case (Cons tid tids)
  show ?case
  proof (cases "known w tid")
    case False
    then have "archiveTasks M w (tid # tids) = archiveTasks M w tids"
      by (auto simp: updateRowWithTask_missing known_def)
    also have "\<dots> = archiveTasks M w (filter (known w) tids)"
      by (rule Cons.IH)
    finally show ?thesis using False by simp
  next
    case True
    obtain res w' where step: "updateRowWithTask M w tid (archive M) = (res, w')"
      by (cases "updateRowWithTask M w tid (archive M)")
    have same: "known w' = known w"
      using step by (rule updateRowWithTask_known)
    show ?thesis
    proof (cases res)
      case (Inl e)
      with step True show ?thesis by simp
    next
      case (Inr u)
      have "archiveTasks M w (tid # tids) = archiveTasks M w' tids"
        using step Inr by simp
      also have "\<dots> = archiveTasks M w' (filter (known w') tids)"
        by (rule Cons.IH)
      also have "\<dots> = archiveTasks M w (tid # filter (known w) tids)"
        using step Inr by (simp add: same)
      finally show ?thesis using True by simp
    qed
  qed
qed


text \<open>
  Claim C5. When the task map or the metadata map has no entry for an id, each line-edit
  operation returns with the world as it was: no task is assigned to, the store is not
  called (no read, no write). \<open>archiveTasks\<close> skips such an id wherever it stands in
  the list. \<open>changeColumn\<close> of the older revision does the same.
\<close>

theorem missing_identity_no_effect:
  assumes "tasksByTaskId w tid = None \<or> metadataByTaskId w tid = None"
  shows "changeColumn M w tid col = (Inr (), w)
       \<and> markDone M w tid = (Inr (), w)
       \<and> updateContent M w tid newContent = (Inr (), w)
       \<and> deleteTask M w tid = (Inr (), w)
       \<and> archiveTasks M w [tid] = (Inr (), w)
       \<and> archiveTasks M w (before @ tid # after) = archiveTasks M w (before @ after)
       \<and> changeColumn_actions_ts M w tid col = (Inr (), w)"
proof -
  have "archiveTasks M w (before @ tid # after) = archiveTasks M w (before @ after)"
    using assms
    by (subst archiveTasks_skips_missing, subst (2) archiveTasks_skips_missing)
      (auto simp: known_def)
  moreover have "changeColumn_actions_ts M w tid col = (Inr (), w)"
    using assms by (auto simp: changeColumn_actions_ts_def split: option.splits)
  ultimately show ?thesis
    using assms
    by (simp add: changeColumn_def markDone_def updateContent_def deleteTask_def
        updateRowWithTask_missing)
qed

text \<open>The theorem at a board whose metadata map is empty.\<close>

theorem missing_identity_no_effect_witness:
  "(tasksByTaskId orphan_board ''t1'' = None \<or> metadataByTaskId orphan_board ''t1'' = None)
   \<and> changeColumn example_methods orphan_board ''t1'' ''doing'' = (Inr (), orphan_board)
   \<and> archiveTasks example_methods orphan_board [''t1''] = (Inr (), orphan_board)"
proof -
  have missing: "tasksByTaskId orphan_board ''t1'' = None \<or> metadataByTaskId orphan_board ''t1'' = None"
    by (simp add: orphan_board_def board_of_def)
  show ?thesis
    using missing missing_identity_no_effect [OF missing, of example_methods "''doing''"]
    by blast
qed





text \<open>The two board scenarios of the spec's section 8, with the example tasks.\<close>

lemma scenario_changeColumn:
  "document (vault (snd (changeColumn example_methods
      (board_of [(''t0'', open_task ''buy milk'' ''todo''), (''t1'', open_task ''walk dog'' ''todo'')]
                [(''t0'', \<lparr>fileHandle = ''b.md'', rowIndex = 0\<rparr>),
                 (''t1'', \<lparr>fileHandle = ''b.md'', rowIndex = 1\<rparr>)]
                (vault_of [(''b.md'', ''- [ ] buy milk #todo\<newline>- [ ] walk dog #todo'')] []) None)
      ''t0'' ''doing''))) ''b.md''
   = Some [''- [ ] buy milk #doing'', ''- [ ] walk dog #todo'']"
  by code_simp

lemma scenario_deleteTask:
  "document (vault (snd (deleteTask example_methods
      (board_of [(''t0'', open_task ''buy milk'' ''todo''), (''t1'', open_task ''walk dog'' ''todo'')]
                [(''t0'', \<lparr>fileHandle = ''b.md'', rowIndex = 0\<rparr>),
                 (''t1'', \<lparr>fileHandle = ''b.md'', rowIndex = 1\<rparr>)]
                (vault_of [(''b.md'', ''- [ ] buy milk #todo\<newline>- [ ] walk dog #todo'')] []) None)
      ''t0''))) ''b.md''
   = Some [''- [ ] walk dog #todo'']"
  by code_simp

lemma scenario_chooseFile:
  "document (vault (chooseFile (board_of [] [] (vault_of [(''notes.md'', ''x'')] []) None)
                      ''notes.md'' ''doing'')) ''notes.md''
   = Some [''x'', ''- [ ]  #doing'']"
  by code_simp

section \<open>Creating a task: which document is appended to\<close>

lemma lastIndexOf_less: "lastIndexOf s c < int (length s)"
  by (simp add: lastIndexOf_def)

lemma folderPathOf_shorter: "folderPathOf p = [] \<or> length (folderPathOf p) < length p"
proof (cases "p = []")
  case True
  then show ?thesis by (simp add: folderPathOf_def substring_def)
next
  case False
  have "length (folderPathOf p) \<le> nat (lastIndexOf p slash)"
    by (simp add: folderPathOf_def substring_def Let_def)
  moreover have "0 < length p"
    using False by simp
  then have "nat (lastIndexOf p slash) < length p"
    using lastIndexOf_less [of p slash] by linarith
  ultimately show ?thesis by simp
qed

lemma ensureFolder_sound:
  assumes "\<forall>c. \<not> faulty v c"
  shows "\<exists>v1. ensureFolder v d = (Inr (), v1) \<and> files v1 = files v \<and> faulty v1 = faulty v
           \<and> (folders v1 = folders v \<or> (d \<noteq> [] \<and> folders v1 = insert d (folders v)))"
  using assms
  by (auto simp: ensureFolder_def vault_exists_def vault_createFolder_def invoked_def)

lemma ensureFile_sound:
  assumes "\<forall>c. \<not> faulty v c"
  shows "\<exists>v2. ensureFile v p = (Inr (), v2) \<and> folders v2 = folders v
           \<and> (files v2 p \<noteq> None \<or> p \<in> folders v)"
  using assms
  by (auto simp: ensureFile_def vault_exists_def vault_create_def invoked_def)

lemma withExtension_cases:
  "withExtension p = p @ ''.md'' \<longleftrightarrow>
     \<not> endsWith p [slash] \<and> \<not> endsWith p [backslash] \<and> \<not> endsWith p ''.md''"
  by (simp add: withExtension_def)

text \<open>
  Claim C6, as amended. With a configured default task path (and a store that does not
  fail), \<open>addNew\<close> appends to the document at the resolved path with \<^verbatim>\<open>.md\<close> added if
  and only if the resolved path ends neither in a slash, nor in a backslash, nor in
  \<^verbatim>\<open>.md\<close>; otherwise at the resolved path itself. So a path ending in \<^verbatim>\<open>.md\<close> is left
  as it is, and so is one that ends in a separator.
\<close>

theorem addNew_default_extension:
  assumes "defaultTaskPath w = Some path" and "trim path \<noteq> []"
    and "\<forall>c. \<not> faulty (vault w) c"
    and "withExtension (resolvedPath (activeFileParentPath w) path) \<notin> folders (vault w)"
  shows "fst (addNew w col hasTarget)
           = Inr (AppendStarted (withExtension (resolvedPath (activeFileParentPath w) path)))
       \<and> (withExtension (resolvedPath (activeFileParentPath w) path)
            = resolvedPath (activeFileParentPath w) path @ ''.md''
          \<longleftrightarrow> \<not> endsWith (resolvedPath (activeFileParentPath w) path) [slash]
              \<and> \<not> endsWith (resolvedPath (activeFileParentPath w) path) [backslash]
              \<and> \<not> endsWith (resolvedPath (activeFileParentPath w) path) ''.md'')
       \<and> (withExtension (resolvedPath (activeFileParentPath w) path)
            \<noteq> resolvedPath (activeFileParentPath w) path @ ''.md''
          \<longrightarrow> withExtension (resolvedPath (activeFileParentPath w) path)
                = resolvedPath (activeFileParentPath w) path)"
proof -
  let ?p = "withExtension (resolvedPath (activeFileParentPath w) path)"
  let ?d = "folderPathOf ?p"
  obtain v1 where f1: "ensureFolder (vault w) ?d = (Inr (), v1)"
    and v1: "faulty v1 = faulty (vault w)"
      "folders v1 = folders (vault w) \<or> (?d \<noteq> [] \<and> folders v1 = insert ?d (folders (vault w)))"
    using ensureFolder_sound [OF assms(3), of ?d] by blast
  have "\<forall>c. \<not> faulty v1 c"
    using assms(3) v1(1) by simp
  then obtain v2 where f2: "ensureFile v1 ?p = (Inr (), v2)"
    and v2: "files v2 ?p \<noteq> None \<or> ?p \<in> folders v1"
    using ensureFile_sound [of v1 ?p] by blast
  have "?d \<noteq> ?p" if "?d \<noteq> []"
    using folderPathOf_shorter [of ?p] that by auto
  then have "?p \<notin> folders v1"
    using v1(2) assms(4) by auto
  then obtain body where "files v2 ?p = Some body"
    using v2 by auto
  then have "getAbstractFileByPath v2 ?p = Some (TFile ?p)"
    by (simp add: getAbstractFileByPath_def)
  then have "fst (addNew w col hasTarget) = Inr (AppendStarted ?p)"
    using assms(1,2) f1 f2 by (simp add: addNew_def Let_def)
  then show ?thesis
    by (simp add: withExtension_def)
qed

text \<open>The theorem at the default path \<^verbatim>\<open>tasks/inbox\<close> under the folder \<^verbatim>\<open>projects\<close>.\<close>

theorem addNew_default_extension_witness:
  "defaultTaskPath inbox_board = Some ''tasks/inbox''
   \<and> trim ''tasks/inbox'' \<noteq> []
   \<and> (\<forall>c. \<not> faulty (vault inbox_board) c)
   \<and> resolvedPath (activeFileParentPath inbox_board) ''tasks/inbox'' = ''projects/tasks/inbox''
   \<and> withExtension ''projects/tasks/inbox'' = ''projects/tasks/inbox.md''
   \<and> ''projects/tasks/inbox.md'' \<notin> folders (vault inbox_board)
   \<and> fst (addNew inbox_board ''doing'' True) = Inr (AppendStarted ''projects/tasks/inbox.md'')"
proof -
  have path: "defaultTaskPath inbox_board = Some ''tasks/inbox''"
    by (simp add: inbox_board_def board_of_def)
  have filled: "trim ''tasks/inbox'' \<noteq> []"
    by (simp add: trim_def is_space_def)
  have sound: "\<forall>c. \<not> faulty (vault inbox_board) c"
    by (simp add: inbox_board_def board_of_def vault_of_def failing_def)
  have r: "resolvedPath (activeFileParentPath inbox_board) ''tasks/inbox'' = ''projects/tasks/inbox''"
    by (simp add: inbox_board_def board_of_def resolvedPath_def startsWithSeparator_def
        slash_def backslash_def)
  have e: "withExtension ''projects/tasks/inbox'' = ''projects/tasks/inbox.md''"
    by (simp add: withExtension_def slash_def backslash_def endsWith_def)
  have free: "withExtension (resolvedPath (activeFileParentPath inbox_board) ''tasks/inbox'')
                \<notin> folders (vault inbox_board)"
    by (simp add: inbox_board_def board_of_def vault_of_def)
  show ?thesis
    using path filled sound r e free
      addNew_default_extension [OF path filled sound free, of "''doing''" True]
    by simp
qed

text \<open>
  Claim C6 as stated leaves a path that carries any extension unchanged. The code looks
  for \<^verbatim>\<open>.md\<close> only: the default path \<^verbatim>\<open>/notes.txt\<close> becomes \<^verbatim>\<open>/notes.txt.md\<close>, and no
  document \<^verbatim>\<open>/notes.txt\<close> exists afterwards.
\<close>

theorem addNew_other_extension_counterexample:
  "resolvedPath None ''/notes.txt'' = ''/notes.txt''
   \<and> carriesExtension ''/notes.txt''
   \<and> fst (addNew (board_of [] [] (vault_of [] []) (Some ''/notes.txt'')) ''todo'' True)
       = Inr (AppendStarted ''/notes.txt.md'')
   \<and> files (vault (snd (addNew (board_of [] [] (vault_of [] []) (Some ''/notes.txt'')) ''todo'' True)))
        ''/notes.txt'' = None"
  by code_simp

section \<open>Failures of the store\<close>

text \<open>
  Every awaited call hands its rejection on: \<open>updateRow\<close> to its caller,
  \<open>updateRowWithTask\<close> and with it the line-edit operations to theirs, \<open>archiveTasks\<close>
  at the first id that fails, \<open>addNew\<close> for the existence tests and the creations. The
  only errors \<open>addNew\<close> can end with are those: never a read or a write failure.
\<close>

lemma updateRow_read_failure:
  "faulty v (Read h) \<Longrightarrow>
   updateRow v h row newText = (Inl (StoreFailure (Read h)), after_read v h)"
  by (simp add: updateRow_def vault_read_def invoked_def after_read_def)

lemma updateRow_modify_failure:
  assumes "document v h = Some D" and "\<not> faulty v (Read h)" and "\<forall>c. faulty v (Modify h c)"
    and "r \<le> length D"
  shows "\<exists>c. fst (updateRow v h (Some r) newText) = Inl (StoreFailure (Modify h c))
           \<and> files (snd (updateRow v h (Some r) newText)) = files v"
  using assms
  by (simp add: updateRow_document vault_modify_def invoked_def after_read_def)

lemma updateRowWithTask_result:
  assumes "tasksByTaskId w tid = Some t" and "metadataByTaskId w tid = Some m"
  shows "fst (updateRowWithTask M w tid updater)
           = fst (updateRow (vault w) (fileHandle m) (Some (rowIndex m))
                    (serialise M (updater t) None))"
  using assms by (simp add: updateRowWithTask_def Let_def)

lemma archiveTasks_first_failure:
  assumes "fst (updateRowWithTask M w tid (archive M)) = Inl e"
  shows "archiveTasks M w (tid # tids) = updateRowWithTask M w tid (archive M)"
  using assms by (cases "updateRowWithTask M w tid (archive M)") auto

lemma ensureFolder_errors:
  "fst (ensureFolder v d) = Inl e \<Longrightarrow> e = StoreFailure (Exists d) \<or> e = StoreFailure (CreateFolder d)"
  by (auto simp: ensureFolder_def vault_exists_def vault_createFolder_def split: if_splits)

lemma ensureFile_errors:
  "fst (ensureFile v p) = Inl e \<Longrightarrow> e = StoreFailure (Exists p) \<or> e = StoreFailure (Create p [])"
  by (auto simp: ensureFile_def vault_exists_def vault_create_def split: if_splits)

lemma addNew_errors:
  assumes "fst (addNew w col hasTarget) = Inl e"
  shows "\<exists>p. e = StoreFailure (Exists p) \<or> e = StoreFailure (CreateFolder p)
            \<or> e = StoreFailure (Create p [])"
proof -
  obtain path where path: "defaultTaskPath w = Some path" "trim path \<noteq> []"
    using assms by (auto simp: addNew_def showChooser_def split: option.splits if_splits)
  let ?p = "withExtension (resolvedPath (activeFileParentPath w) path)"
  obtain r1 v1 where f1: "ensureFolder (vault w) (folderPathOf ?p) = (r1, v1)"
    by (cases "ensureFolder (vault w) (folderPathOf ?p)")
  show ?thesis
  proof (cases r1)
    case (Inl e1)
    then have "e = e1" using assms path f1 by (simp add: addNew_def Let_def)
    moreover have "fst (ensureFolder (vault w) (folderPathOf ?p)) = Inl e1"
      using f1 Inl by simp
    ultimately show ?thesis using ensureFolder_errors by blast
  next
    case (Inr u)
    obtain r2 v2 where f2: "ensureFile v1 ?p = (r2, v2)"
      by (cases "ensureFile v1 ?p")
    show ?thesis
    proof (cases r2)
      case (Inl e2)
      then have "e = e2" using assms path f1 Inr f2 by (simp add: addNew_def Let_def)
      moreover have "fst (ensureFile v1 ?p) = Inl e2"
        using f2 Inl by simp
      ultimately show ?thesis using ensureFile_errors by blast
    next
      case r2: (Inr u')
      have False
        using assms path f1 Inr f2 r2
        by (auto simp: addNew_def Let_def showChooser_def split: option.splits abstract_file.splits)
      then show ?thesis ..
    qed
  qed
qed

lemma addNew_exists_failure:
  assumes "defaultTaskPath w = Some path" and "trim path \<noteq> []"
    and "folderPathOf (withExtension (resolvedPath (activeFileParentPath w) path)) = []"
    and "faulty (vault w) (Exists (withExtension (resolvedPath (activeFileParentPath w) path)))"
  shows "fst (addNew w col hasTarget)
           = Inl (StoreFailure (Exists (withExtension (resolvedPath (activeFileParentPath w) path))))"
  using assms
  by (simp add: addNew_def Let_def ensureFolder_def ensureFile_def vault_exists_def)

text \<open>
  Claim C7 at the failing input. The default path names an existing document whose read
  fails. \<open>updateRow\<close> itself rejects with the read failure, but \<open>addNew\<close> does not
  await it: \<open>addNew\<close> ends without error, and the rejection is left unhandled.
\<close>

theorem addNew_append_failure_not_thrown:
  "fst (addNew (board_of [] [] (vault_of [(''/inbox.md'', ''x'')] [Read ''/inbox.md''])
                 (Some ''inbox.md'')) ''todo'' True)
     = Inr (AppendStarted ''/inbox.md'')
   \<and> unhandled (snd (addNew (board_of [] [] (vault_of [(''/inbox.md'', ''x'')] [Read ''/inbox.md''])
                 (Some ''inbox.md'')) ''todo'' True))
     = [StoreFailure (Read ''/inbox.md'')]
   \<and> fst (updateRow (vault_of [(''/inbox.md'', ''x'')] [Read ''/inbox.md'']) ''/inbox.md'' None
            (newTaskLine ''todo''))
     = Inl (StoreFailure (Read ''/inbox.md''))"
  by code_simp

end
